theory Spec2Isabelle
  imports Main
begin

section \<open>Regular expressions as the source writes them\<close>

text \<open>
  \<^verbatim>\<open>validate_email.py\<close> assembles one regular expression from the tokens of RFC 2822 and
  hands it to \<^verbatim>\<open>re.match\<close>.  The pattern language it uses is small: literal characters,
  bracketed character classes (single characters, ranges given by hexadecimal escapes and
  \<^verbatim>\<open>\w\<close>), the dot, concatenation, alternation, and the postfix operators \<^verbatim>\<open>*\<close>, \<^verbatim>\<open>+\<close>
  and \<^verbatim>\<open>?\<close>.  The anchors \<^verbatim>\<open>^\<close> and \<^verbatim>\<open>$\<close> occur once, around the whole pattern.
\<close>

datatype citem = Ch char | Rng nat nat | Word

datatype regex =
    Epsilon
  | Lit char
  | Cls "citem list"
  | Dot
  | Seq regex regex
  | Alt regex regex
  | Star regex

definition Many1 :: "regex \<Rightarrow> regex" where
  "Many1 r = Seq r (Star r)"

definition Opt :: "regex \<Rightarrow> regex" where
  "Opt r = Alt r Epsilon"

text \<open>A pattern of the shape \<^verbatim>\<open>^r$\<close>.\<close>

datatype pattern = Anchored regex

subsection \<open>Characters\<close>

definition LF :: char where "LF = CHR 0x0A"
definition CR :: char where "CR = CHR 0x0D"
definition TAB :: char where "TAB = CHR 0x09"
definition BACKSLASH :: char where "BACKSLASH = CHR 0x5C"
definition DQUOTE :: char where "DQUOTE = CHR 0x22"

text \<open>
  \<^verbatim>\<open>\w\<close> in a \<^verbatim>\<open>str\<close> pattern: the ASCII letters, digits and the underscore, and beyond
  ASCII whatever the Unicode tables of the interpreter call alphanumeric.  That table is
  not part of the program; it is the parameter \<open>W\<close>.  A string is a list of the 256
  characters of HOL, so the inputs covered are the strings of code points up to 255.
\<close>

definition word_char :: "(char \<Rightarrow> bool) \<Rightarrow> char \<Rightarrow> bool" where
  "word_char W c =
     (let n = (of_char c :: nat) in
      if n < 128 then
        (48 \<le> n \<and> n \<le> 57) \<or> (65 \<le> n \<and> n \<le> 90) \<or> n = 95 \<or> (97 \<le> n \<and> n \<le> 122)
      else W c)"

fun citem_has :: "(char \<Rightarrow> bool) \<Rightarrow> char \<Rightarrow> citem \<Rightarrow> bool" where
  "citem_has W c (Ch d) = (c = d)"
| "citem_has W c (Rng lo hi) = (lo \<le> of_char c \<and> (of_char c :: nat) \<le> hi)"
| "citem_has W c Word = word_char W c"

definition cls_has :: "(char \<Rightarrow> bool) \<Rightarrow> citem list \<Rightarrow> char \<Rightarrow> bool" where
  "cls_has W items c = list_ex (citem_has W c) items"

subsection \<open>Matching\<close>

text \<open>
  \<open>ends W r s\<close> lists what can remain of \<open>s\<close> after \<open>r\<close> has matched a prefix of it, one
  entry per way of matching, as a backtracking matcher would try them.  An iteration of
  \<^verbatim>\<open>*\<close> that consumes nothing is not repeated.
\<close>

function ends :: "(char \<Rightarrow> bool) \<Rightarrow> regex \<Rightarrow> string \<Rightarrow> string list" where
  "ends W Epsilon s = [s]"
| "ends W (Lit c) s = (case s of [] \<Rightarrow> [] | x # xs \<Rightarrow> if x = c then [xs] else [])"
| "ends W (Cls items) s = (case s of [] \<Rightarrow> [] | x # xs \<Rightarrow> if cls_has W items x then [xs] else [])"
| "ends W Dot s = (case s of [] \<Rightarrow> [] | x # xs \<Rightarrow> if x \<noteq> LF then [xs] else [])"
| "ends W (Seq a b) s = concat (map (ends W b) (ends W a s))"
| "ends W (Alt a b) s = ends W a s @ ends W b s"
| "ends W (Star r) s =
     s # concat (map (\<lambda>t. if length t < length s then ends W (Star r) t else []) (ends W r s))"
  by pat_completeness auto
termination
  by (relation "measures [\<lambda>(W, r, s). size r, \<lambda>(W, r, s). length s]") auto

text \<open>
  \<^verbatim>\<open>re.match(p, s) is not None\<close> for a pattern \<^verbatim>\<open>^r$\<close> without flags: \<^verbatim>\<open>re.match\<close> starts at
  the beginning of \<open>s\<close>, and \<^verbatim>\<open>$\<close> holds at the end of the string and just before a
  line feed that is the last character of the string.
\<close>

fun re_match :: "(char \<Rightarrow> bool) \<Rightarrow> pattern \<Rightarrow> string \<Rightarrow> bool" where
  "re_match W (Anchored r) s = list_ex (\<lambda>t. t = [] \<or> t = [LF]) (ends W r s)"

section \<open>The tokens of RFC 2822\<close>

definition WSP :: regex where
  "WSP = Cls [Ch CHR '' '', Ch TAB]"

definition CRLF :: regex where
  "CRLF = Seq (Lit CR) (Lit LF)"

definition NO_WS_CTL :: "citem list" where
  "NO_WS_CTL = [Rng 0x01 0x08, Ch (CHR 0x0B), Ch (CHR 0x0C), Rng 0x0F 0x1F, Ch (CHR 0x7F)]"

definition QUOTED_PAIR :: regex where
  "QUOTED_PAIR = Seq (Lit BACKSLASH) Dot"

definition FWS :: regex where
  "FWS = Seq (Opt (Seq (Star WSP) CRLF)) (Many1 WSP)"

definition CTEXT :: regex where
  "CTEXT = Cls (NO_WS_CTL @ [Rng 0x21 0x27, Rng 0x2A 0x5B, Rng 0x5D 0x7E])"

definition CCONTENT :: regex where
  "CCONTENT = Alt CTEXT QUOTED_PAIR"

definition COMMENT :: regex where
  "COMMENT = Seq (Lit CHR ''('')
               (Seq (Star (Seq (Opt FWS) CCONTENT)) (Seq (Opt FWS) (Lit CHR '')'')))"

text \<open>
  \<^verbatim>\<open>CFWS\<close> is two groups in a row, \<^verbatim>\<open>(?:FWS?COMMENT)*(?:FWS?COMMENT|FWS)\<close>, and the program
  never wraps it in a group of its own.  Wherever it writes \<^verbatim>\<open>{CFWS}?\<close> the question mark
  therefore belongs to the second group only: that text is \<open>CFWS_OPT\<close>.
\<close>

definition CFWS_REPEAT :: regex where
  "CFWS_REPEAT = Star (Seq (Opt FWS) COMMENT)"

definition CFWS_LAST :: regex where
  "CFWS_LAST = Alt (Seq (Opt FWS) COMMENT) FWS"

definition CFWS :: regex where
  "CFWS = Seq CFWS_REPEAT CFWS_LAST"

definition CFWS_OPT :: regex where
  "CFWS_OPT = Seq CFWS_REPEAT (Opt CFWS_LAST)"

definition ATEXT :: regex where
  "ATEXT = Cls [Word, Ch CHR ''!'', Ch CHR ''#'', Ch CHR ''$'', Ch CHR ''%'', Ch CHR ''&'',
                Ch (CHR 0x27), Ch CHR ''*'', Ch CHR ''+'', Ch CHR ''-'', Ch CHR ''/'',
                Ch CHR ''='', Ch CHR ''?'', Ch CHR ''^'', Ch (CHR 0x60), Ch CHR ''{'',
                Ch CHR ''|'', Ch CHR ''}'', Ch CHR ''~'']"

definition ATOM :: regex where
  "ATOM = Seq CFWS_OPT (Seq (Many1 ATEXT) CFWS_OPT)"

definition DOT_ATOM_TEXT :: regex where
  "DOT_ATOM_TEXT = Seq (Many1 ATEXT) (Star (Seq (Lit CHR ''.'') (Many1 ATEXT)))"

definition DOT_ATOM :: regex where
  "DOT_ATOM = Seq CFWS_OPT (Seq DOT_ATOM_TEXT CFWS_OPT)"

definition QTEXT :: regex where
  "QTEXT = Cls (NO_WS_CTL @ [Ch (CHR 0x21), Rng 0x23 0x5B, Rng 0x5D 0x7E])"

definition QCONTENT :: regex where
  "QCONTENT = Alt QTEXT QUOTED_PAIR"

definition QUOTED_STRING :: regex where
  "QUOTED_STRING =
     Seq CFWS_OPT
       (Seq (Lit DQUOTE)
         (Seq (Star (Seq (Opt FWS) QCONTENT))
           (Seq (Opt FWS) (Seq (Lit DQUOTE) CFWS_OPT))))"

definition LOCAL_PART :: regex where
  "LOCAL_PART = Alt DOT_ATOM QUOTED_STRING"

definition DTEXT :: regex where
  "DTEXT = Cls (NO_WS_CTL @ [Rng 0x21 0x5A, Rng 0x5E 0x7E])"

definition DCONTENT :: regex where
  "DCONTENT = Alt DTEXT QUOTED_PAIR"

definition DOMAIN_LITERAL :: regex where
  "DOMAIN_LITERAL =
     Seq CFWS_OPT
       (Seq (Lit CHR ''['')
         (Seq (Star (Seq (Opt FWS) DCONTENT))
           (Seq (Opt FWS) (Seq (Lit CHR '']'') CFWS_OPT))))"

definition DOMAIN :: regex where
  "DOMAIN = Alt DOT_ATOM DOMAIN_LITERAL"

definition ADDR_SPEC :: regex where
  "ADDR_SPEC = Seq LOCAL_PART (Seq (Lit CHR ''@'') DOMAIN)"

definition VALID_ADDRESS_REGEXP :: pattern where
  "VALID_ADDRESS_REGEXP = Anchored ADDR_SPEC"


section \<open>The language of a regular expression\<close>

text \<open>
  The reference semantics: the set of strings a regular expression denotes.  It is what
  "being a valid addr-spec" means, independently of how a matcher searches.
\<close>

inductive_set kleene :: "string set \<Rightarrow> string set" for A :: "string set" where
  kleene_nil: "[] \<in> kleene A"
| kleene_app: "u \<in> A \<Longrightarrow> v \<in> kleene A \<Longrightarrow> u @ v \<in> kleene A"

fun lang :: "(char \<Rightarrow> bool) \<Rightarrow> regex \<Rightarrow> string set" where
  "lang W Epsilon = {[]}"
| "lang W (Lit c) = {[c]}"
| "lang W (Cls items) = {[c] | c. cls_has W items c}"
| "lang W Dot = {[c] | c. c \<noteq> LF}"
| "lang W (Seq a b) = {u @ v | u v. u \<in> lang W a \<and> v \<in> lang W b}"
| "lang W (Alt a b) = lang W a \<union> lang W b"
| "lang W (Star r) = kleene (lang W r)"

section \<open>The world outside the function\<close>

text \<open>
  The exception classes the handlers of \<^verbatim>\<open>validate_email\<close> tell apart, the bare
  \<^verbatim>\<open>Exception\<close> it raises itself, \<^verbatim>\<open>socket.error\<close> (what the socket layer under
  \<^verbatim>\<open>smtplib\<close> raises when a TCP connection cannot be opened), and any other class.
\<close>

datatype exn =
    AssertionError
  | ServerError
  | SMTPServerDisconnected
  | SMTPConnectError
  | Exception string
  | SocketError
  | OtherError string

text \<open>An MX record as \<^verbatim>\<open>DNS.mxlookup\<close> returns it: the pair (preference, host).\<close>

type_synonym mx = "int \<times> string"

text \<open>
  Every call that leaves the process, with its arguments and its outcome: \<open>Inl\<close> an
  exception, \<open>Inr\<close> the returned value (for SMTP commands the reply code).
\<close>

datatype event =
    DiscoverNameServers "exn + unit"
  | MxLookup string "exn + mx list"
  | SmtpConnect string "exn + int"
  | SmtpHelo string "exn + int"
  | SmtpMail string string "exn + int"
  | SmtpRcpt string string "exn + int"

text \<open>
  The environment: whether \<^verbatim>\<open>import DNS\<close> succeeded, the word characters beyond ASCII,
  and how the name service and the mail hosts answer.  An answer may depend on everything
  that happened before in the call (the events so far).
\<close>

record world =
  unicode_word :: "char \<Rightarrow> bool"
  dns_module :: bool
  dns_discover :: "event list \<Rightarrow> exn + unit"
  dns_mxlookup :: "event list \<Rightarrow> string \<Rightarrow> exn + mx list"
  smtp_connect :: "event list \<Rightarrow> string \<Rightarrow> exn + int"
  smtp_helo :: "event list \<Rightarrow> string \<Rightarrow> exn + int"
  smtp_mail :: "event list \<Rightarrow> string \<Rightarrow> string \<Rightarrow> exn + int"
  smtp_rcpt :: "event list \<Rightarrow> string \<Rightarrow> string \<Rightarrow> exn + int"

section \<open>validate\_email\<close>

text \<open>\<^verbatim>\<open>str.find\<close>: the lowest index of the character, or \<open>-1\<close>.\<close>

fun find_from :: "int \<Rightarrow> string \<Rightarrow> char \<Rightarrow> int" where
  "find_from i [] c = -1"
| "find_from i (x # xs) c = (if x = c then i else find_from (i + 1) xs c)"

definition str_find :: "string \<Rightarrow> char \<Rightarrow> int" where
  "str_find s c = find_from 0 s c"

text \<open>The slice \<^verbatim>\<open>s[k:]\<close>; a negative \<open>k\<close> counts from the end.\<close>

definition slice_from :: "string \<Rightarrow> int \<Rightarrow> string" where
  "slice_from s k = (if 0 \<le> k then drop (nat k) s else drop (nat (int (length s) + k)) s)"

text \<open>How one pass through the body of the \<^verbatim>\<open>for\<close> loop ends, when it raises nothing.\<close>

datatype flow = Return bool | Continue | Break

text \<open>The body of the inner \<^verbatim>\<open>try\<close>, lines 115 to 123, for one MX record.\<close>

definition try_host ::
  "world \<Rightarrow> string \<Rightarrow> bool \<Rightarrow> mx \<Rightarrow> event list \<Rightarrow> (exn + flow) \<times> event list" where
  "try_host w email verify m tr =
     (let host = snd m;
          r1 = smtp_connect w tr host;
          tr1 = tr @ [SmtpConnect host r1]
      in case r1 of
           Inl e \<Rightarrow> (Inl e, tr1)
         | Inr _ \<Rightarrow>
             if \<not> verify then (Inr (Return True), tr1)
             else
               (let r2 = smtp_helo w tr1 host;
                    tr2 = tr1 @ [SmtpHelo host r2]
                in case r2 of
                     Inl e \<Rightarrow> (Inl e, tr2)
                   | Inr status \<Rightarrow>
                       if status \<noteq> 250 then (Inr Continue, tr2)
                       else
                         (let r3 = smtp_mail w tr2 host [];
                              tr3 = tr2 @ [SmtpMail host [] r3]
                          in case r3 of
                               Inl e \<Rightarrow> (Inl e, tr3)
                             | Inr _ \<Rightarrow>
                                 (let r4 = smtp_rcpt w tr3 host email;
                                      tr4 = tr3 @ [SmtpRcpt host email r4]
                                  in case r4 of
                                       Inl e \<Rightarrow> (Inl e, tr4)
                                     | Inr status \<Rightarrow>
                                         if status \<noteq> 250 then (Inr (Return False), tr4)
                                         else (Inr Break, tr4)))))"

text \<open>
  The \<^verbatim>\<open>for\<close> loop with the two handlers of the inner \<^verbatim>\<open>try\<close>.  \<open>Inr (Some b)\<close>: the
  function returned \<open>b\<close> from inside the loop; \<open>Inr None\<close>: the loop was left (exhausted
  or by \<^verbatim>\<open>break\<close>); \<open>Inl e\<close>: an exception no inner handler takes.
\<close>

fun mx_loop ::
  "world \<Rightarrow> string \<Rightarrow> bool \<Rightarrow> mx list \<Rightarrow> event list \<Rightarrow> (exn + bool option) \<times> event list" where
  "mx_loop w email verify [] tr = (Inr None, tr)"
| "mx_loop w email verify (m # rest) tr =
     (case try_host w email verify m tr of
        (Inl e, tr') \<Rightarrow>
          if e = SMTPServerDisconnected then (Inr None, tr')
          else if e = SMTPConnectError then mx_loop w email verify rest tr'
          else (Inl e, tr')
      | (Inr (Return b), tr') \<Rightarrow> (Inr (Some b), tr')
      | (Inr Continue, tr') \<Rightarrow> mx_loop w email verify rest tr'
      | (Inr Break, tr') \<Rightarrow> (Inr None, tr'))"

definition NO_DNS_MESSAGE :: string where
  "NO_DNS_MESSAGE = ''For check the mx records or check if the email exists you must have installed pyDNS python package''"

definition hostname_of :: "string \<Rightarrow> string" where
  "hostname_of email = slice_from email (str_find email CHR ''@'' + 1)"

text \<open>The body of the outer \<^verbatim>\<open>try\<close>, lines 106 to 127.\<close>

definition try_body ::
  "world \<Rightarrow> string \<Rightarrow> bool \<Rightarrow> bool \<Rightarrow> (exn + bool option) \<times> event list" where
  "try_body w email check_mx verify =
     (if \<not> re_match (unicode_word w) VALID_ADDRESS_REGEXP email then (Inl AssertionError, [])
      else
        (let check_mx = (check_mx \<or> verify)
         in if check_mx then
              (if \<not> dns_module w then (Inl (Exception NO_DNS_MESSAGE), [])
               else
                 (let r1 = dns_discover w [];
                      tr1 = [DiscoverNameServers r1]
                  in case r1 of
                       Inl e \<Rightarrow> (Inl e, tr1)
                     | Inr _ \<Rightarrow>
                         (let hostname = hostname_of email;
                              r2 = dns_mxlookup w tr1 hostname;
                              tr2 = tr1 @ [MxLookup hostname r2]
                          in case r2 of
                               Inl e \<Rightarrow> (Inl e, tr2)
                             | Inr mx_hosts \<Rightarrow> mx_loop w email verify mx_hosts tr2)))
            else (Inr None, [])))"

text \<open>
  The function: the outer handler turns \<^verbatim>\<open>AssertionError\<close> and \<^verbatim>\<open>ServerError\<close> into
  \<^verbatim>\<open>False\<close>, every other exception goes to the caller, and leaving the \<^verbatim>\<open>try\<close> without a
  \<^verbatim>\<open>return\<close> reaches the final \<^verbatim>\<open>return True\<close>.  The result comes with the events of the call.
\<close>

definition validate_email ::
  "world \<Rightarrow> string \<Rightarrow> bool \<Rightarrow> bool \<Rightarrow> (exn + bool) \<times> event list" where
  "validate_email w email check_mx verify =
     (case try_body w email check_mx verify of
        (Inl e, tr) \<Rightarrow>
          if e = AssertionError \<or> e = ServerError then (Inr False, tr) else (Inl e, tr)
      | (Inr (Some b), tr) \<Rightarrow> (Inr b, tr)
      | (Inr None, tr) \<Rightarrow> (Inr True, tr))"


section \<open>Reading a trace\<close>

text \<open>What remains of \<open>s\<close> after a word of the language has been taken from its front.\<close>

definition rests :: "(char \<Rightarrow> bool) \<Rightarrow> regex \<Rightarrow> string \<Rightarrow> string set" where
  "rests W r s = {v. \<exists>u. u \<in> lang W r \<and> s = u @ v}"

text \<open>A recipient check that came back with a reply code other than 250.\<close>

fun rejection :: "event \<Rightarrow> bool" where
  "rejection (SmtpRcpt h e (Inr status)) = (status \<noteq> 250)"
| "rejection _ = False"

text \<open>An SMTP call during which the server closed the connection.\<close>

fun disconnection :: "event \<Rightarrow> bool" where
  "disconnection (SmtpConnect h r) = (r = Inl SMTPServerDisconnected)"
| "disconnection (SmtpHelo h r) = (r = Inl SMTPServerDisconnected)"
| "disconnection (SmtpMail h s r) = (r = Inl SMTPServerDisconnected)"
| "disconnection (SmtpRcpt h e r) = (r = Inl SMTPServerDisconnected)"
| "disconnection _ = False"

text \<open>An event after which nothing else may happen: see \<open>final_last\<close>.\<close>

definition final :: "event \<Rightarrow> bool" where
  "final ev = (rejection ev \<or> disconnection ev)"

fun final_last :: "event list \<Rightarrow> bool" where
  "final_last [] = True"
| "final_last (ev # evs) = (if final ev then evs = [] else final_last evs)"

text \<open>Whether a connection to the host was attempted.\<close>

fun contacted :: "string \<Rightarrow> event list \<Rightarrow> bool" where
  "contacted h [] = False"
| "contacted h (SmtpConnect h' r # evs) = (h = h' \<or> contacted h evs)"
| "contacted h (_ # evs) = contacted h evs"

text \<open>Whether any SMTP call was made.\<close>

fun smtp_event :: "event \<Rightarrow> bool" where
  "smtp_event (DiscoverNameServers r) = False"
| "smtp_event (MxLookup d r) = False"
| "smtp_event _ = True"

section \<open>Some worlds\<close>

text \<open>
  A world in which pyDNS is installed, \<^verbatim>\<open>example.com\<close> has two mail exchangers, and
  both accept every recipient.
\<close>

definition two_hosts :: "mx list" where
  "two_hosts = [(10, ''mx1.example.com''), (20, ''mx2.example.com'')]"

definition friendly :: world where
  "friendly =
     \<lparr> unicode_word = (\<lambda>c. False),
       dns_module = True,
       dns_discover = (\<lambda>tr. Inr ()),
       dns_mxlookup = (\<lambda>tr d. Inr two_hosts),
       smtp_connect = (\<lambda>tr h. Inr 220),
       smtp_helo = (\<lambda>tr h. Inr 250),
       smtp_mail = (\<lambda>tr h sender. Inr 250),
       smtp_rcpt = (\<lambda>tr h rcpt. Inr 250) \<rparr>"

text \<open>The first exchanger answers \<^verbatim>\<open>RCPT TO\<close> with 550.\<close>

definition rejecting :: world where
  "rejecting =
     friendly \<lparr> smtp_rcpt := (\<lambda>tr h rcpt. if h = ''mx1.example.com'' then Inr 550 else Inr 250) \<rparr>"

text \<open>The first exchanger closes the connection when it is greeted.\<close>

definition hanging_up :: world where
  "hanging_up =
     friendly \<lparr> smtp_helo :=
       (\<lambda>tr h. if h = ''mx1.example.com'' then Inl SMTPServerDisconnected else Inr 250) \<rparr>"

text \<open>The first exchanger refuses the TCP connection; the socket layer raises.\<close>

definition refusing :: world where
  "refusing =
     friendly \<lparr> smtp_connect :=
       (\<lambda>tr h. if h = ''mx1.example.com'' then Inl SocketError else Inr 220) \<rparr>"

text \<open>The domain has no mail exchanger: the lookup returns the empty list.\<close>

definition no_exchanger :: world where
  "no_exchanger = friendly \<lparr> dns_mxlookup := (\<lambda>tr d. Inr []) \<rparr>"

text \<open>pyDNS is not installed.\<close>

definition without_dns :: world where
  "without_dns = friendly \<lparr> dns_module := False \<rparr>"

text \<open>The address \<^verbatim>\<open>"a@b"@example.com\<close>, whose quoted local part holds an at sign.\<close>

definition quoted_at :: string where
  "quoted_at = DQUOTE # ''a@b'' @ DQUOTE # ''@example.com''"


section \<open>The matcher against the language\<close>

text \<open>
  The equation of \<open>ends\<close> for \<^verbatim>\<open>*\<close> mentions itself; it is unfolded by hand, one step
  at a time.
\<close>

declare ends.simps(7) [simp del]

lemma restsI: "u \<in> lang W r \<Longrightarrow> s = u @ v \<Longrightarrow> v \<in> rests W r s"
  unfolding rests_def by blast

lemma restsE: "v \<in> rests W r s \<Longrightarrow> (\<And>u. u \<in> lang W r \<Longrightarrow> s = u @ v \<Longrightarrow> P) \<Longrightarrow> P"
  unfolding rests_def by blast

lemma kleene_split:
  "u \<in> kleene A \<Longrightarrow> u = [] \<or> (\<exists>p q. p \<noteq> [] \<and> p \<in> A \<and> q \<in> kleene A \<and> u = p @ q)"
  by (induction rule: kleene.induct) auto

lemma ends_Star_iff:
  "v \<in> set (ends W (Star r) s) \<longleftrightarrow>
     v = s \<or> (\<exists>t \<in> set (ends W r s). length t < length s \<and> v \<in> set (ends W (Star r) t))"
  by (subst ends.simps(7)) (auto split: if_splits)

lemma ends_Seq_iff:
  "v \<in> set (ends W (Seq a b) s) \<longleftrightarrow> (\<exists>t \<in> set (ends W a s). v \<in> set (ends W b t))"
  by simp

lemma ends_lang: "set (ends W r s) = rests W r s"
proof (induction W r s rule: ends.induct)
  case (1 W s)
  show ?case by (simp add: rests_def)
next
  case (2 W c s)
  show ?case by (cases s) (auto simp: rests_def)
next
  case (3 W items s)
  show ?case by (cases s) (auto simp: rests_def)
next
  case (4 W s)
  show ?case by (cases s) (auto simp: rests_def)
next
  case (5 W a b s)
  show ?case
  proof (intro set_eqI iffI)
    fix v assume "v \<in> set (ends W (Seq a b) s)"
    then obtain t where t: "t \<in> set (ends W a s)" and v: "v \<in> set (ends W b t)"
      unfolding ends_Seq_iff by blast
    from t "5.IH"(1) have "t \<in> rests W a s" by simp
    then obtain u1 where u1: "u1 \<in> lang W a" "s = u1 @ t" by (rule restsE)
    from v "5.IH"(2)[OF t] have "v \<in> rests W b t" by simp
    then obtain u2 where u2: "u2 \<in> lang W b" "t = u2 @ v" by (rule restsE)
    have "u1 @ u2 \<in> lang W (Seq a b)" using u1(1) u2(1) by auto
    moreover have "s = (u1 @ u2) @ v" using u1(2) u2(2) by simp
    ultimately show "v \<in> rests W (Seq a b) s" by (rule restsI)
  next
    fix v assume "v \<in> rests W (Seq a b) s"
    then obtain u where u: "u \<in> lang W (Seq a b)" "s = u @ v" by (rule restsE)
    from u(1) obtain u1 u2 where u12: "u1 \<in> lang W a" "u2 \<in> lang W b" "u = u1 @ u2" by auto
    have "u2 @ v \<in> rests W a s" using u12(1) by (rule restsI) (simp add: u(2) u12(3))
    then have t: "u2 @ v \<in> set (ends W a s)" using "5.IH"(1) by simp
    have "v \<in> rests W b (u2 @ v)" using u12(2) by (rule restsI) simp
    then have "v \<in> set (ends W b (u2 @ v))" using "5.IH"(2)[OF t] by simp
    with t show "v \<in> set (ends W (Seq a b) s)" unfolding ends_Seq_iff by blast
  qed
next
  case (6 W a b s)
  then show ?case by (auto simp: rests_def)
next
  case (7 W r s)
  show ?case
  proof (intro set_eqI iffI)
    fix v assume "v \<in> set (ends W (Star r) s)"
    then consider "v = s"
      | t where "t \<in> set (ends W r s)" "length t < length s" "v \<in> set (ends W (Star r) t)"
      using ends_Star_iff by blast
    then show "v \<in> rests W (Star r) s"
    proof cases
      case 1
      have "[] \<in> lang W (Star r)" by (simp add: kleene_nil)
      then show ?thesis by (rule restsI) (simp add: 1)
    next
      case 2
      from 2(1) "7.IH"(1) have "t \<in> rests W r s" by simp
      then obtain u1 where u1: "u1 \<in> lang W r" "s = u1 @ t" by (rule restsE)
      from 2(3) "7.IH"(2)[OF 2(1) 2(2)] have "v \<in> rests W (Star r) t" by simp
      then obtain u2 where u2: "u2 \<in> lang W (Star r)" "t = u2 @ v" by (rule restsE)
      have "u1 @ u2 \<in> lang W (Star r)" using u1(1) u2(1) by (simp add: kleene_app)
      then show ?thesis by (rule restsI) (simp add: u1(2) u2(2))
    qed
  next
    fix v assume "v \<in> rests W (Star r) s"
    then obtain u where u: "u \<in> lang W (Star r)" "s = u @ v" by (rule restsE)
    then have uk: "u \<in> kleene (lang W r)" by simp
    from kleene_split[OF uk] show "v \<in> set (ends W (Star r) s)"
    proof
      assume "u = []"
      with u(2) have "v = s" by simp
      then show ?thesis using ends_Star_iff by blast
    next
      assume "\<exists>p q. p \<noteq> [] \<and> p \<in> lang W r \<and> q \<in> kleene (lang W r) \<and> u = p @ q"
      then obtain p q where pq: "p \<noteq> []" "p \<in> lang W r" "q \<in> kleene (lang W r)" "u = p @ q"
        by blast
      have "q @ v \<in> rests W r s" using pq(2) by (rule restsI) (simp add: u(2) pq(4))
      then have t: "q @ v \<in> set (ends W r s)" using "7.IH"(1) by simp
      have len: "length (q @ v) < length s" using pq(1) by (simp add: u(2) pq(4))
      have "q \<in> lang W (Star r)" using pq(3) by simp
      then have "v \<in> rests W (Star r) (q @ v)" by (rule restsI) simp
      then have "v \<in> set (ends W (Star r) (q @ v))" using "7.IH"(2)[OF t len] by simp
      with t len show ?thesis using ends_Star_iff by blast
    qed
  qed
qed

lemma re_match_lang:
  "re_match W (Anchored r) s \<longleftrightarrow> s \<in> lang W r \<or> (\<exists>t. t \<in> lang W r \<and> s = t @ [LF])"
  by (auto simp: list_ex_iff ends_lang rests_def)

lemma lang_iff_ends: "s \<in> lang W r \<longleftrightarrow> [] \<in> set (ends W r s)"
  by (simp add: ends_lang rests_def)

text \<open>
  \<^verbatim>\<open>$\<close> also matches just before a line feed that ends the string; on every other string
  the anchored pattern accepts exactly the language of the expression.
\<close>

lemma re_match_exact:
  "s = [] \<or> last s \<noteq> LF \<Longrightarrow> re_match W (Anchored r) s \<longleftrightarrow> s \<in> lang W r"
  unfolding re_match_lang by auto

lemma addr_spec_has_at: "s \<in> lang W ADDR_SPEC \<Longrightarrow> CHR ''@'' \<in> set s"
  by (auto simp: ADDR_SPEC_def)

lemma no_at_no_match: "CHR ''@'' \<notin> set s \<Longrightarrow> \<not> re_match W VALID_ADDRESS_REGEXP s"
  unfolding VALID_ADDRESS_REGEXP_def re_match_lang
  by (auto dest: addr_spec_has_at)


section \<open>The syntactic check\<close>

text \<open>With both flags off the body of the \<^verbatim>\<open>try\<close> is the assertion and nothing else.\<close>

lemma try_body_syntax_only:
  "try_body w s False False =
     (if re_match (unicode_word w) VALID_ADDRESS_REGEXP s then (Inr None, [])
      else (Inl AssertionError, []))"
  by (simp add: try_body_def)

lemma syntax_only:
  "validate_email w s False False = (Inr (re_match (unicode_word w) VALID_ADDRESS_REGEXP s), [])"
  by (simp add: validate_email_def try_body_syntax_only)

text \<open>The pattern on the strings of the table, whatever \<^verbatim>\<open>\w\<close> does beyond ASCII.\<close>

lemma table1: "re_match W VALID_ADDRESS_REGEXP ''user@example.com''"
  by code_simp

lemma table2: "re_match W VALID_ADDRESS_REGEXP ''user.name+tag@sub.example.co''"
  by code_simp

lemma table3: "re_match W VALID_ADDRESS_REGEXP (DQUOTE # ''quoted user'' @ DQUOTE # ''@example.com'')"
  by code_simp

lemma table4: "re_match W VALID_ADDRESS_REGEXP ''user@[192.168.1.1]''"
  by code_simp

lemma table5: "\<not> re_match W VALID_ADDRESS_REGEXP ''plainaddress''"
  by code_simp

lemma table6: "\<not> re_match W VALID_ADDRESS_REGEXP ''@missinglocal.com''"
  by code_simp

lemma table7: "\<not> re_match W VALID_ADDRESS_REGEXP ''user@''"
  by code_simp

lemma table8: "\<not> re_match W VALID_ADDRESS_REGEXP ''user@@example.com''"
  by code_simp

lemma empty_no_match: "\<not> re_match W VALID_ADDRESS_REGEXP []"
  by code_simp

lemma trailing_lf_match: "re_match W VALID_ADDRESS_REGEXP (''user@example.com'' @ [LF])"
  by code_simp

lemma trailing_lf_not_addr_spec: "''user@example.com'' @ [LF] \<notin> lang W ADDR_SPEC"
  unfolding lang_iff_ends by code_simp

text \<open>
  An address with a letter put before and after it is an address again: the letters
  join the atoms at either end.
\<close>

lemma longer_is_valid: "''xuser@example.comx'' \<in> lang W ADDR_SPEC"
  unfolding lang_iff_ends by code_simp

text \<open>
  C3.  With \<^verbatim>\<open>check_mx\<close> and \<^verbatim>\<open>verify\<close> off, \<^verbatim>\<open>validate_email\<close> returns \<^verbatim>\<open>True\<close> for
  \<^verbatim>\<open>user@example.com\<close>, \<^verbatim>\<open>user.name+tag@sub.example.co\<close>, \<^verbatim>\<open>"quoted user"@example.com\<close>
  and \<^verbatim>\<open>user@[192.168.1.1]\<close>, and \<^verbatim>\<open>False\<close> for \<^verbatim>\<open>plainaddress\<close>, \<^verbatim>\<open>@missinglocal.com\<close>,
  \<^verbatim>\<open>user@\<close> and \<^verbatim>\<open>user@@example.com\<close>; in each case without any call to the outside.
\<close>

theorem table_cases:
  "validate_email w ''user@example.com'' False False = (Inr True, [])
   \<and> validate_email w ''user.name+tag@sub.example.co'' False False = (Inr True, [])
   \<and> validate_email w (DQUOTE # ''quoted user'' @ DQUOTE # ''@example.com'') False False = (Inr True, [])
   \<and> validate_email w ''user@[192.168.1.1]'' False False = (Inr True, [])
   \<and> validate_email w ''plainaddress'' False False = (Inr False, [])
   \<and> validate_email w ''@missinglocal.com'' False False = (Inr False, [])
   \<and> validate_email w ''user@'' False False = (Inr False, [])
   \<and> validate_email w ''user@@example.com'' False False = (Inr False, [])"
  by (simp only: syntax_only table1 table2 table3 table4 table5 table6 table7 table8)

text \<open>
  C4.  The check is meant to accept a string only when the whole of it is an addr-spec.
  The string \<^verbatim>\<open>user@example.com\<close> followed by a line feed is not an addr-spec, and
  \<^verbatim>\<open>validate_email\<close> returns \<^verbatim>\<open>True\<close> for it: the \<^verbatim>\<open>$\<close> that closes the pattern matches
  before a final line feed.
\<close>

theorem trailing_newline_accepted:
  "''user@example.com'' @ [LF] \<notin> lang (unicode_word w) ADDR_SPEC
   \<and> validate_email w (''user@example.com'' @ [LF]) False False = (Inr True, [])"
  using trailing_lf_match [of "unicode_word w"] trailing_lf_not_addr_spec [of "unicode_word w"]
  by (simp add: syntax_only)


text \<open>
  What the handler of line 128 does with a failed assertion: with both flags off, a string
  that the pattern does not match makes \<^verbatim>\<open>validate_email\<close> return \<^verbatim>\<open>False\<close>; so does the
  empty string, and so does every string without an at sign.  No string makes the call
  raise.
\<close>

lemma pattern_mismatch_returns_false:
  "(\<not> re_match (unicode_word w) VALID_ADDRESS_REGEXP s \<longrightarrow>
      validate_email w s False False = (Inr False, []))
   \<and> validate_email w [] False False = (Inr False, [])
   \<and> (CHR ''@'' \<notin> set s \<longrightarrow> validate_email w s False False = (Inr False, []))"
  by (simp add: syntax_only empty_no_match no_at_no_match)

lemma syntax_check_never_raises: "\<exists>b. validate_email w s False False = (Inr b, [])"
  by (simp add: syntax_only)

text \<open>Against the grammar: a string outside it is refused, unless it ends in a line feed.\<close>

lemma outside_grammar_returns_false:
  assumes "s \<notin> lang (unicode_word w) ADDR_SPEC"
    and "s = [] \<or> last s \<noteq> LF"
  shows "validate_email w s False False = (Inr False, [])"
  using assms re_match_exact [of s "unicode_word w" ADDR_SPEC]
  by (simp add: syntax_only VALID_ADDRESS_REGEXP_def)

lemma literal_lf_match: "re_match W VALID_ADDRESS_REGEXP (''user@[192.168.1.1]'' @ [LF])"
  by code_simp

lemma literal_lf_not_addr_spec: "''user@[192.168.1.1]'' @ [LF] \<notin> lang W ADDR_SPEC"
  unfolding lang_iff_ends by code_simp

text \<open>
  C9.  Every string outside the addr-spec grammar is meant to make the check return
  \<^verbatim>\<open>False\<close>.  The string \<^verbatim>\<open>user@[192.168.1.1]\<close> followed by a line feed is outside the
  grammar, and with both flags off \<^verbatim>\<open>validate_email\<close> returns \<^verbatim>\<open>True\<close> for it, not
  \<^verbatim>\<open>False\<close>.  The call does not raise.
\<close>

theorem outside_grammar_accepted:
  "''user@[192.168.1.1]'' @ [LF] \<notin> lang (unicode_word w) ADDR_SPEC
   \<and> validate_email w (''user@[192.168.1.1]'' @ [LF]) False False = (Inr True, [])
   \<and> validate_email w (''user@[192.168.1.1]'' @ [LF]) False False \<noteq> (Inr False, [])"
  using literal_lf_match [of "unicode_word w"] literal_lf_not_addr_spec [of "unicode_word w"]
  by (simp add: syntax_only)


section \<open>The name service\<close>

text \<open>
  C6.  For an address the pattern accepts, when \<^verbatim>\<open>check_mx\<close> or \<^verbatim>\<open>verify\<close> is set and the
  \<^verbatim>\<open>DNS\<close> module could not be imported, \<^verbatim>\<open>validate_email\<close> raises \<^verbatim>\<open>Exception\<close> with the
  message of line 109, which no handler of the function takes: the caller gets the
  exception, not \<^verbatim>\<open>False\<close>, and nothing outside has been called.
\<close>

theorem no_dns_raises:
  assumes "re_match (unicode_word w) VALID_ADDRESS_REGEXP email"
    and "check_mx \<or> verify"
    and "\<not> dns_module w"
  shows "validate_email w email check_mx verify = (Inl (Exception NO_DNS_MESSAGE), [])"
  using assms by (simp add: validate_email_def try_body_def)

theorem no_dns_raises_witness:
  "re_match (unicode_word without_dns) VALID_ADDRESS_REGEXP ''user@example.com''
   \<and> \<not> dns_module without_dns
   \<and> validate_email without_dns ''user@example.com'' True False =
        (Inl (Exception NO_DNS_MESSAGE), [])"
  using no_dns_raises [of without_dns "''user@example.com''" True False]
    table1 [of "unicode_word without_dns"]
  by (simp add: without_dns_def)

text \<open>
  C10.  For an address the pattern accepts, when \<^verbatim>\<open>check_mx\<close> or \<^verbatim>\<open>verify\<close> is set and
  \<^verbatim>\<open>DNS.mxlookup\<close> returns the empty list, \<^verbatim>\<open>validate_email\<close> returns \<^verbatim>\<open>True\<close>, and the
  two DNS calls are all that happened: no SMTP call is made.
\<close>

theorem empty_mx_list_accepts:
  assumes "re_match (unicode_word w) VALID_ADDRESS_REGEXP email"
    and "check_mx \<or> verify"
    and "dns_module w"
    and "dns_discover w [] = Inr ()"
    and "dns_mxlookup w [DiscoverNameServers (Inr ())] (hostname_of email) = Inr []"
  shows "validate_email w email check_mx verify =
           (Inr True, [DiscoverNameServers (Inr ()), MxLookup (hostname_of email) (Inr [])])
         \<and> \<not> list_ex smtp_event (snd (validate_email w email check_mx verify))"
  using assms by (simp add: validate_email_def try_body_def)

theorem empty_mx_list_accepts_witness:
  "re_match (unicode_word no_exchanger) VALID_ADDRESS_REGEXP ''user@example.com''
   \<and> dns_module no_exchanger
   \<and> dns_discover no_exchanger [] = Inr ()
   \<and> dns_mxlookup no_exchanger [DiscoverNameServers (Inr ())]
        (hostname_of ''user@example.com'') = Inr []
   \<and> validate_email no_exchanger ''user@example.com'' True True =
        (Inr True, [DiscoverNameServers (Inr ()), MxLookup ''example.com'' (Inr [])])"
  using empty_mx_list_accepts [of no_exchanger "''user@example.com''" True True]
    table1 [of "unicode_word no_exchanger"]
  by (simp add: no_exchanger_def friendly_def hostname_of_def str_find_def slice_from_def)

text \<open>
  The address \<^verbatim>\<open>"a@b"@example.com\<close>: the pattern accepts it, with the quoted string as
  local part and \<^verbatim>\<open>example.com\<close> as domain.  Line 111 cuts it after its first at sign.
\<close>

lemma quoted_at_match: "re_match W VALID_ADDRESS_REGEXP quoted_at"
  by code_simp

lemma quoted_at_local: "DQUOTE # ''a@b'' @ [DQUOTE] \<in> lang W LOCAL_PART"
  unfolding lang_iff_ends by code_simp

lemma example_com_domain: "''example.com'' \<in> lang W DOMAIN"
  unfolding lang_iff_ends by code_simp

lemma quoted_at_split: "quoted_at = (DQUOTE # ''a@b'' @ [DQUOTE]) @ CHR ''@'' # ''example.com''"
  by (simp add: quoted_at_def)

lemma quoted_at_hostname: "hostname_of quoted_at = ''b'' @ DQUOTE # ''@example.com''"
  by code_simp

lemma quoted_at_hostname_no_domain: "hostname_of quoted_at \<notin> lang W DOMAIN"
  unfolding lang_iff_ends by code_simp

lemma quoted_at_run:
  "validate_email friendly quoted_at True False =
     (Inr True,
      [DiscoverNameServers (Inr ()),
       MxLookup (''b'' @ DQUOTE # ''@example.com'') (Inr two_hosts),
       SmtpConnect ''mx1.example.com'' (Inr 220)])"
  by code_simp

text \<open>
  C8.  The domain handed to the MX lookup is meant to be what follows the at sign that
  separates local part and domain.  For \<^verbatim>\<open>"a@b"@example.com\<close>, an address the pattern
  accepts as the local part \<^verbatim>\<open>"a@b"\<close>, an at sign and the domain \<^verbatim>\<open>example.com\<close>, the
  function looks up \<^verbatim>\<open>b"@example.com\<close>, which is what follows the first at sign and is
  no domain of the grammar.
\<close>

theorem domain_after_first_at:
  "re_match W VALID_ADDRESS_REGEXP quoted_at
   \<and> quoted_at = (DQUOTE # ''a@b'' @ [DQUOTE]) @ CHR ''@'' # ''example.com''
   \<and> DQUOTE # ''a@b'' @ [DQUOTE] \<in> lang W LOCAL_PART
   \<and> ''example.com'' \<in> lang W DOMAIN
   \<and> hostname_of quoted_at = ''b'' @ DQUOTE # ''@example.com''
   \<and> hostname_of quoted_at \<notin> lang W DOMAIN
   \<and> validate_email friendly quoted_at True False =
        (Inr True,
         [DiscoverNameServers (Inr ()),
          MxLookup (''b'' @ DQUOTE # ''@example.com'') (Inr two_hosts),
          SmtpConnect ''mx1.example.com'' (Inr 220)])"
  by (intro conjI quoted_at_match quoted_at_split quoted_at_local example_com_domain
      quoted_at_hostname quoted_at_hostname_no_domain quoted_at_run)


section \<open>The loop over the mail exchangers\<close>

text \<open>The handler of line 126: after \<^verbatim>\<open>SMTPConnectError\<close> the loop goes on with the next record.\<close>

lemma connect_error_continues:
  "smtp_connect w tr (snd m) = Inl SMTPConnectError \<Longrightarrow>
   mx_loop w email verify (m # rest) tr =
     mx_loop w email verify rest (tr @ [SmtpConnect (snd m) (Inl SMTPConnectError)])"
  by (simp add: try_host_def)

text \<open>Any other exception of \<^verbatim>\<open>connect\<close>, a disconnection apart, leaves the loop and the function.\<close>

lemma connect_exception_propagates:
  assumes "smtp_connect w tr (snd m) = Inl e"
    and "e \<noteq> SMTPConnectError" and "e \<noteq> SMTPServerDisconnected"
  shows "mx_loop w email verify (m # rest) tr = (Inl e, tr @ [SmtpConnect (snd m) (Inl e)])"
  using assms by (simp add: try_host_def)

lemma refusing_run:
  "validate_email refusing ''user@example.com'' True False =
     (Inl SocketError,
      [DiscoverNameServers (Inr ()),
       MxLookup ''example.com'' (Inr two_hosts),
       SmtpConnect ''mx1.example.com'' (Inl SocketError)])"
  by code_simp

lemma refusing_run_verify:
  "validate_email refusing ''user@example.com'' True True =
     (Inl SocketError,
      [DiscoverNameServers (Inr ()),
       MxLookup ''example.com'' (Inr two_hosts),
       SmtpConnect ''mx1.example.com'' (Inl SocketError)])"
  by code_simp

text \<open>
  C7.  A connection that cannot be opened is meant to make the loop go on with the next
  exchanger.  \<^verbatim>\<open>smtplib.SMTP.connect\<close> reports a refused connection or a timeout with the
  socket's exception, not with \<^verbatim>\<open>SMTPConnectError\<close>; no handler of the function takes
  it.  When the first of two exchangers refuses the connection, the call ends with that
  exception, with or without \<^verbatim>\<open>verify\<close>, and the second exchanger is never tried.
\<close>

theorem refused_connection_propagates:
  "validate_email refusing ''user@example.com'' True False =
     (Inl SocketError,
      [DiscoverNameServers (Inr ()),
       MxLookup ''example.com'' (Inr two_hosts),
       SmtpConnect ''mx1.example.com'' (Inl SocketError)])
   \<and> validate_email refusing ''user@example.com'' True True =
     (Inl SocketError,
      [DiscoverNameServers (Inr ()),
       MxLookup ''example.com'' (Inr two_hosts),
       SmtpConnect ''mx1.example.com'' (Inl SocketError)])"
  by (intro conjI refusing_run refusing_run_verify)

subsection \<open>What a trace can look like\<close>

lemma final_last_append:
  "\<forall>ev \<in> set xs. \<not> final ev \<Longrightarrow> final_last (xs @ ys) = final_last ys"
  by (induction xs) simp_all

lemma final_last_split:
  "final_last (pre @ ev # post) \<Longrightarrow> final ev \<Longrightarrow> post = []"
  by (induction pre) (auto split: if_splits)

text \<open>
  One pass through the loop body adds events to the trace.  A rejection among them means
  the pass ended in \<^verbatim>\<open>return False\<close>, a disconnection that it raised
  \<^verbatim>\<open>SMTPServerDisconnected\<close>, and either is the last event added.
\<close>

lemma try_host_trace:
  assumes "try_host w email verify m tr0 = (r, tr)"
  shows "\<exists>ext. tr = tr0 @ ext \<and> final_last ext
           \<and> ((\<exists>ev \<in> set ext. rejection ev) \<longrightarrow> r = Inr (Return False))
           \<and> ((\<exists>ev \<in> set ext. disconnection ev) \<longrightarrow> r = Inl SMTPServerDisconnected)"
  using assms
  by (auto simp: try_host_def Let_def final_def split: sum.splits if_splits)

lemma mx_loop_trace:
  "mx_loop w email verify hosts tr0 = (r, tr) \<Longrightarrow>
   \<exists>ext. tr = tr0 @ ext \<and> final_last ext
     \<and> ((\<exists>ev \<in> set ext. rejection ev) \<longrightarrow> r = Inr (Some False))
     \<and> ((\<exists>ev \<in> set ext. disconnection ev) \<longrightarrow> r = Inr None)"
proof (induction hosts arbitrary: tr0)
  case Nil
  then show ?case by simp
next
  case (Cons m rest)
  obtain r1 tr1 where h: "try_host w email verify m tr0 = (r1, tr1)"
    by (cases "try_host w email verify m tr0")
  from try_host_trace [OF h] obtain e1 where
    e1: "tr1 = tr0 @ e1" "final_last e1"
      "(\<exists>ev \<in> set e1. rejection ev) \<longrightarrow> r1 = Inr (Return False)"
      "(\<exists>ev \<in> set e1. disconnection ev) \<longrightarrow> r1 = Inl SMTPServerDisconnected"
    by blast
  show ?case
  proof (cases "r1 = Inl SMTPConnectError \<or> r1 = Inr Continue")
    case True
    then have "mx_loop w email verify rest tr1 = (r, tr)"
      using Cons.prems h by auto
    from Cons.IH [OF this] obtain e2 where
      e2: "tr = tr1 @ e2" "final_last e2"
        "(\<exists>ev \<in> set e2. rejection ev) \<longrightarrow> r = Inr (Some False)"
        "(\<exists>ev \<in> set e2. disconnection ev) \<longrightarrow> r = Inr None"
      by blast
    have quiet: "\<forall>ev \<in> set e1. \<not> final ev"
      using True e1(3,4) by (auto simp: final_def)
    then have "final_last (e1 @ e2)"
      using e2(2) by (simp add: final_last_append)
    moreover have "tr = tr0 @ e1 @ e2"
      using e1(1) e2(1) by simp
    moreover have "(\<exists>ev \<in> set (e1 @ e2). rejection ev) \<longrightarrow> r = Inr (Some False)"
      using quiet e2(3) by (auto simp: final_def)
    moreover have "(\<exists>ev \<in> set (e1 @ e2). disconnection ev) \<longrightarrow> r = Inr None"
      using quiet e2(4) by (auto simp: final_def)
    ultimately show ?thesis by blast
  next
    case False
    then have "tr = tr1"
      and "(\<exists>ev \<in> set e1. rejection ev) \<longrightarrow> r = Inr (Some False)"
      and "(\<exists>ev \<in> set e1. disconnection ev) \<longrightarrow> r = Inr None"
      using Cons.prems h e1(3,4) by (auto split: sum.splits flow.splits if_splits)
    then show ?thesis using e1(1,2) by blast
  qed
qed

text \<open>Unless the loop was reached, the trace holds at most the two DNS calls.\<close>

lemma try_body_cases:
  assumes "try_body w email check_mx verify = (r, tr)"
    and "\<forall>hosts. mx_loop w email verify hosts
           [DiscoverNameServers (Inr ()), MxLookup (hostname_of email) (Inr hosts)] \<noteq> (r, tr)"
  shows "tr = [] \<or> (\<exists>e. tr = [DiscoverNameServers (Inl e)])
           \<or> (\<exists>e. tr = [DiscoverNameServers (Inr ()), MxLookup (hostname_of email) (Inl e)])"
  using assms
  by (auto simp: try_body_def Let_def split: if_splits sum.splits)

lemma try_body_trace:
  assumes "try_body w email check_mx verify = (r, tr)"
  shows "final_last tr
     \<and> ((\<exists>ev \<in> set tr. rejection ev) \<longrightarrow> r = Inr (Some False))
     \<and> ((\<exists>ev \<in> set tr. disconnection ev) \<longrightarrow> r = Inr None)"
proof (cases "\<exists>hosts. mx_loop w email verify hosts
      [DiscoverNameServers (Inr ()), MxLookup (hostname_of email) (Inr hosts)] = (r, tr)")
  case True
  then obtain hosts where
    "mx_loop w email verify hosts
       [DiscoverNameServers (Inr ()), MxLookup (hostname_of email) (Inr hosts)] = (r, tr)"
    by blast
  from mx_loop_trace [OF this] obtain ext where
    e: "tr = [DiscoverNameServers (Inr ()), MxLookup (hostname_of email) (Inr hosts)] @ ext"
      "final_last ext"
      "(\<exists>ev \<in> set ext. rejection ev) \<longrightarrow> r = Inr (Some False)"
      "(\<exists>ev \<in> set ext. disconnection ev) \<longrightarrow> r = Inr None"
    by blast
  then show ?thesis by (auto simp: final_def)
next
  case False
  with try_body_cases [OF assms] show ?thesis
    by (auto simp: final_def)
qed

lemma validate_email_trace:
  assumes "validate_email w email check_mx verify = (res, tr)"
  shows "final_last tr
     \<and> ((\<exists>ev \<in> set tr. rejection ev) \<longrightarrow> res = Inr False)
     \<and> ((\<exists>ev \<in> set tr. disconnection ev) \<longrightarrow> res = Inr True)"
proof -
  obtain r where b: "try_body w email check_mx verify = (r, tr)"
    using assms
    by (cases "try_body w email check_mx verify")
       (auto simp: validate_email_def split: sum.splits option.splits if_splits)
  from try_body_trace [OF b] show ?thesis
    using assms b by (auto simp: validate_email_def)
qed

subsection \<open>Three calls with \<^verbatim>\<open>verify\<close>\<close>

lemma friendly_run:
  "validate_email friendly ''user@example.com'' True True =
     (Inr True,
      [DiscoverNameServers (Inr ()),
       MxLookup ''example.com'' (Inr two_hosts),
       SmtpConnect ''mx1.example.com'' (Inr 220),
       SmtpHelo ''mx1.example.com'' (Inr 250),
       SmtpMail ''mx1.example.com'' [] (Inr 250),
       SmtpRcpt ''mx1.example.com'' ''user@example.com'' (Inr 250)])"
  by code_simp

lemma rejecting_run:
  "validate_email rejecting ''user@example.com'' True True =
     (Inr False,
      [DiscoverNameServers (Inr ()),
       MxLookup ''example.com'' (Inr two_hosts),
       SmtpConnect ''mx1.example.com'' (Inr 220),
       SmtpHelo ''mx1.example.com'' (Inr 250),
       SmtpMail ''mx1.example.com'' [] (Inr 250),
       SmtpRcpt ''mx1.example.com'' ''user@example.com'' (Inr 550)])"
  by code_simp

lemma hanging_up_run:
  "validate_email hanging_up ''user@example.com'' True True =
     (Inr True,
      [DiscoverNameServers (Inr ()),
       MxLookup ''example.com'' (Inr two_hosts),
       SmtpConnect ''mx1.example.com'' (Inr 220),
       SmtpHelo ''mx1.example.com'' (Inl SMTPServerDisconnected)])"
  by code_simp

text \<open>
  C1.  In a call with \<^verbatim>\<open>verify\<close> set, if some host answers \<^verbatim>\<open>RCPT TO\<close> with a reply code
  other than 250, the call returns \<^verbatim>\<open>False\<close> and that reply is the last event of the
  call: no host is contacted afterwards, whatever the list of exchangers is.
\<close>

theorem rejection_ends_probe:
  assumes "validate_email w email check_mx True = (res, tr)"
    and "tr = pre @ SmtpRcpt host rcpt (Inr status) # post"
    and "status \<noteq> 250"
  shows "res = Inr False \<and> post = []"
proof -
  have f: "final (SmtpRcpt host rcpt (Inr status))"
    using assms(3) by (simp add: final_def)
  from validate_email_trace [OF assms(1)] show ?thesis
    using assms(2,3) final_last_split [OF _ f] by auto
qed

theorem rejection_ends_probe_witness:
  "snd (validate_email rejecting ''user@example.com'' True True) =
     [DiscoverNameServers (Inr ()),
      MxLookup ''example.com'' (Inr two_hosts),
      SmtpConnect ''mx1.example.com'' (Inr 220),
      SmtpHelo ''mx1.example.com'' (Inr 250),
      SmtpMail ''mx1.example.com'' [] (Inr 250)]
     @ SmtpRcpt ''mx1.example.com'' ''user@example.com'' (Inr 550) # []
   \<and> (550 :: int) \<noteq> 250
   \<and> fst (validate_email rejecting ''user@example.com'' True True) = Inr False"
  using rejection_ends_probe
    [of rejecting "''user@example.com''" True
      "fst (validate_email rejecting ''user@example.com'' True True)"
      "snd (validate_email rejecting ''user@example.com'' True True)"
      "[DiscoverNameServers (Inr ()),
        MxLookup ''example.com'' (Inr two_hosts),
        SmtpConnect ''mx1.example.com'' (Inr 220),
        SmtpHelo ''mx1.example.com'' (Inr 250),
        SmtpMail ''mx1.example.com'' [] (Inr 250)]"
      "''mx1.example.com''" "''user@example.com''" 550 "[]"]
  by (simp add: rejecting_run)

text \<open>
  C2, as the claim has it, fails: when the first of two exchangers closes the connection
  at \<^verbatim>\<open>HELO\<close>, the call returns \<^verbatim>\<open>True\<close> and the second exchanger is not contacted.
\<close>

theorem disconnect_continues_counterexample:
  "validate_email hanging_up ''user@example.com'' True True =
     (Inr True,
      [DiscoverNameServers (Inr ()),
       MxLookup ''example.com'' (Inr two_hosts),
       SmtpConnect ''mx1.example.com'' (Inr 220),
       SmtpHelo ''mx1.example.com'' (Inl SMTPServerDisconnected)])
   \<and> \<not> contacted ''mx2.example.com''
         (snd (validate_email hanging_up ''user@example.com'' True True))"
  by (simp add: hanging_up_run)

text \<open>
  C2, amended.  In a call with \<^verbatim>\<open>verify\<close> set, if the server closes the connection during
  an SMTP call, the probe ends there: that call is the last event, no further host is
  contacted, and \<^verbatim>\<open>validate_email\<close> returns \<^verbatim>\<open>True\<close>.
\<close>

theorem disconnect_ends_probe:
  assumes "validate_email w email check_mx True = (res, tr)"
    and "tr = pre @ ev # post"
    and "disconnection ev"
  shows "res = Inr True \<and> post = []"
proof -
  have f: "final ev"
    using assms(3) by (simp add: final_def)
  from validate_email_trace [OF assms(1)] show ?thesis
    using assms(2,3) final_last_split [OF _ f] by auto
qed

theorem disconnect_ends_probe_witness:
  "snd (validate_email hanging_up ''user@example.com'' True True) =
     [DiscoverNameServers (Inr ()),
      MxLookup ''example.com'' (Inr two_hosts),
      SmtpConnect ''mx1.example.com'' (Inr 220)]
     @ SmtpHelo ''mx1.example.com'' (Inl SMTPServerDisconnected) # []
   \<and> disconnection (SmtpHelo ''mx1.example.com'' (Inl SMTPServerDisconnected))
   \<and> fst (validate_email hanging_up ''user@example.com'' True True) = Inr True"
  using disconnect_ends_probe
    [of hanging_up "''user@example.com''" True
      "fst (validate_email hanging_up ''user@example.com'' True True)"
      "snd (validate_email hanging_up ''user@example.com'' True True)"
      "[DiscoverNameServers (Inr ()),
        MxLookup ''example.com'' (Inr two_hosts),
        SmtpConnect ''mx1.example.com'' (Inr 220)]"
      "SmtpHelo ''mx1.example.com'' (Inl SMTPServerDisconnected)" "[]"]
  by (simp add: hanging_up_run)

end
